theory Spec2Isabelle
  imports Complex_Main "HOL-Library.AList"
begin

section \<open>Python values used by the usage tracker\<close>

text \<open>
  A Python \<open>str\<close> is a sequence of Unicode code points, so it is modelled as a list of
  natural numbers; \<open>str\<close> turns an ASCII literal into that representation.
\<close>

type_synonym pystr = "nat list"

definition str :: "string \<Rightarrow> pystr" where
  "str s = map of_char s"

text \<open>
  \<open>str.strip()\<close> without arguments removes leading and trailing characters for which
  \<open>str.isspace\<close> holds.  These are the code points CPython treats as whitespace.
\<close>

definition isspace :: "nat \<Rightarrow> bool" where
  "isspace c \<longleftrightarrow>
     (0x9 \<le> c \<and> c \<le> 0xD) \<or> (0x1C \<le> c \<and> c \<le> 0x20) \<or> c = 0x85 \<or> c = 0xA0 \<or>
     c = 0x1680 \<or> (0x2000 \<le> c \<and> c \<le> 0x200A) \<or> c = 0x2028 \<or> c = 0x2029 \<or>
     c = 0x202F \<or> c = 0x205F \<or> c = 0x3000"

definition strip :: "pystr \<Rightarrow> pystr" where
  "strip s = rev (dropWhile isspace (rev (dropWhile isspace s)))"

text \<open>
  A Python \<open>float\<close>: a finite value (the rational number the double denotes; both
  zeros are \<open>Finite 0\<close>), an infinity, or NaN.  Comparisons follow IEEE 754: every
  ordered comparison with NaN is false.  Subtraction of finite values is the exact
  difference; the rounding of the machine operation is not represented.
\<close>

datatype pyfloat = Finite rat | PosInf | NegInf | NaN

fun float_lt :: "pyfloat \<Rightarrow> pyfloat \<Rightarrow> bool" where
  "float_lt NaN _ = False"
| "float_lt _ NaN = False"
| "float_lt (Finite a) (Finite b) = (a < b)"
| "float_lt _ NegInf = False"
| "float_lt NegInf _ = True"
| "float_lt PosInf _ = False"
| "float_lt (Finite a) PosInf = True"


fun float_sub :: "pyfloat \<Rightarrow> pyfloat \<Rightarrow> pyfloat" where
  "float_sub NaN _ = NaN"
| "float_sub _ NaN = NaN"
| "float_sub (Finite a) (Finite b) = Finite (a - b)"
| "float_sub PosInf PosInf = NaN"
| "float_sub NegInf NegInf = NaN"
| "float_sub PosInf _ = PosInf"
| "float_sub NegInf _ = NegInf"
| "float_sub (Finite a) PosInf = NegInf"
| "float_sub (Finite a) NegInf = PosInf"

text \<open>
  The values a token dictionary can hold (the \<open>Any\<close> of the type annotations): what
  a decoded JSON document contains.
\<close>

datatype pyval =
    PNone
  | PBool bool
  | PInt int
  | PFloat pyfloat
  | PStr pystr
  | PList "pyval list"
  | PDict "(pystr \<times> pyval) list"

datatype py_error = ValueError | TypeError | OverflowError

text \<open>Truth value testing, as used by \<open>or\<close> and \<open>not\<close>.\<close>

fun truthy :: "pyval \<Rightarrow> bool" where
  "truthy PNone = False"
| "truthy (PBool b) = b"
| "truthy (PInt i) = (i \<noteq> 0)"
| "truthy (PFloat f) = (f \<noteq> Finite 0)"
| "truthy (PStr s) = (s \<noteq> [])"
| "truthy (PList xs) = (xs \<noteq> [])"
| "truthy (PDict kvs) = (kvs \<noteq> [])"

definition py_or :: "pyval \<Rightarrow> pyval \<Rightarrow> pyval" where
  "py_or a b = (if truthy a then a else b)"

text \<open>
  The builtin \<open>int(x)\<close>.  A float is truncated towards zero; NaN and the infinities
  raise.  Parsing a string is the interpreter's business (surrounding whitespace, sign,
  underscores, Unicode digits, the configurable digit limit), so it is the parameter
  \<open>parse\<close>: \<open>None\<close> when \<open>int(s)\<close> raises \<open>ValueError\<close>.
\<close>

definition trunc :: "rat \<Rightarrow> int" where
  "trunc r = (if 0 \<le> r then \<lfloor>r\<rfloor> else \<lceil>r\<rceil>)"

fun py_int :: "(pystr \<Rightarrow> int option) \<Rightarrow> pyval \<Rightarrow> py_error + int" where
  "py_int parse PNone = Inl TypeError"
| "py_int parse (PBool b) = Inr (if b then 1 else 0)"
| "py_int parse (PInt i) = Inr i"
| "py_int parse (PFloat (Finite r)) = Inr (trunc r)"
| "py_int parse (PFloat NaN) = Inl ValueError"
| "py_int parse (PFloat PosInf) = Inl OverflowError"
| "py_int parse (PFloat NegInf) = Inl OverflowError"
| "py_int parse (PStr s) = (case parse s of None \<Rightarrow> Inl ValueError | Some i \<Rightarrow> Inr i)"
| "py_int parse (PList xs) = Inl TypeError"
| "py_int parse (PDict kvs) = Inl TypeError"

section \<open>Token normalisation\<close>

text \<open>
  \<open>_safe_int\<close>: \<open>int(value or 0)\<close>, negative results and every exception give 0.
\<close>

definition safe_int :: "(pystr \<Rightarrow> int option) \<Rightarrow> pyval \<Rightarrow> int" where
  "safe_int parse v =
     (case py_int parse (py_or v (PInt 0)) of
        Inl _ \<Rightarrow> 0
      | Inr ivalue \<Rightarrow> if ivalue > 0 then ivalue else 0)"

text \<open>\<open>d.get(k)\<close>: the value stored under \<open>k\<close>, \<open>None\<close> for a missing key.\<close>

definition dict_get :: "(pystr \<rightharpoonup> pyval) \<Rightarrow> string \<Rightarrow> pyval" where
  "dict_get d k = (case d (str k) of None \<Rightarrow> PNone | Some v \<Rightarrow> v)"

record token_stats =
  input_tokens :: int
  output_tokens :: int
  reasoning_tokens :: int
  cached_tokens :: int
  total_tokens :: int

text \<open>\<open>tokens or {}\<close>, and the value the three alternate spellings of one field
  resolve to (\<open>d.get(k1) or d.get(k2) or d.get(k3)\<close>).\<close>

definition token_data_of :: "(pystr \<rightharpoonup> pyval) option \<Rightarrow> (pystr \<rightharpoonup> pyval)" where
  "token_data_of tokens = (case tokens of None \<Rightarrow> Map.empty | Some d \<Rightarrow> d)"

definition first_of :: "(pystr \<rightharpoonup> pyval) \<Rightarrow> string \<Rightarrow> string \<Rightarrow> string \<Rightarrow> pyval" where
  "first_of d k1 k2 k3 = py_or (py_or (dict_get d k1) (dict_get d k2)) (dict_get d k3)"

definition normalize_token_stats ::
    "(pystr \<Rightarrow> int option) \<Rightarrow> (pystr \<rightharpoonup> pyval) option \<Rightarrow> token_stats" where
  "normalize_token_stats parse tokens =
     (let token_data = token_data_of tokens;
          input_tokens = safe_int parse
            (first_of token_data ''input_tokens'' ''prompt_tokens'' ''inputTokens'');
          output_tokens = safe_int parse
            (first_of token_data ''output_tokens'' ''completion_tokens'' ''outputTokens'');
          reasoning_tokens = safe_int parse
            (first_of token_data ''reasoning_tokens'' ''thoughts_tokens'' ''reasoningTokens'');
          cached_tokens = safe_int parse
            (first_of token_data ''cached_tokens'' ''cache_read_input_tokens'' ''cachedTokens'');
          total_tokens = safe_int parse
            (first_of token_data ''total_tokens'' ''totalTokenCount'' ''totalTokens'');
          total_tokens =
            (if total_tokens = 0 then input_tokens + output_tokens + reasoning_tokens
             else total_tokens)
      in \<lparr> input_tokens = input_tokens, output_tokens = output_tokens,
           reasoning_tokens = reasoning_tokens, cached_tokens = cached_tokens,
           total_tokens = total_tokens \<rparr>)"

section \<open>The event store\<close>

record usage_event =
  api :: pystr
  model :: pystr
  source :: pystr
  auth_index :: pystr
  failed :: bool
  status_code :: int
  error_message :: pystr
  tokens :: token_stats
  timestamp :: pyfloat

text \<open>
  \<open>collections.deque\<close> with a \<open>maxlen\<close>: \<open>append\<close> adds on the right and then drops
  one element on the left when the bound is exceeded; \<open>deque(iterable, maxlen)\<close>
  appends the elements one by one.
\<close>

definition deque_append :: "nat \<Rightarrow> 'a list \<Rightarrow> 'a \<Rightarrow> 'a list" where
  "deque_append n xs x = (let ys = xs @ [x] in if n < length ys then tl ys else ys)"

definition deque_of :: "nat \<Rightarrow> 'a list \<Rightarrow> 'a list" where
  "deque_of n xs = foldl (deque_append n) [] xs"

text \<open>
  The tracker's state: the deque's contents, oldest first, and its \<open>maxlen\<close>.  The lock
  does not appear: every operation below is one critical section run to completion.
\<close>

record usage_tracker =
  events :: "usage_event list"
  maxlen :: nat

text \<open>\<open>UsageTracker(max_details)\<close>; \<open>deque\<close> refuses a negative \<open>maxlen\<close>.\<close>

definition UsageTracker :: "int \<Rightarrow> py_error + usage_tracker" where
  "UsageTracker max_details =
     (if max_details < 0 then Inl ValueError
      else Inr \<lparr> events = [], maxlen = nat max_details \<rparr>)"

definition default_max_details :: int where
  "default_max_details = 50000"

text \<open>
  The arguments of one \<open>record\<close> call.  The string arguments may be \<open>None\<close>, which the
  code treats like the empty string.
\<close>

record call =
  c_api :: "pystr option"
  c_model :: "pystr option"
  c_source :: "pystr option"
  c_auth_index :: "pystr option"
  c_failed :: bool
  c_tokens :: "(pystr \<rightharpoonup> pyval) option"
  c_status_code :: "int option"
  c_error_message :: "pystr option"
  c_timestamp :: "pyfloat option"

text \<open>\<open>a or b\<close> on optional strings, and \<open>(a or d).strip() or d\<close>.\<close>

definition opt_or :: "pystr option \<Rightarrow> pystr option \<Rightarrow> pystr option" where
  "opt_or a b = (case a of None \<Rightarrow> b | Some s \<Rightarrow> if s = [] then b else Some s)"

definition str_or :: "pystr option \<Rightarrow> pystr \<Rightarrow> pystr" where
  "str_or a d = (case a of None \<Rightarrow> d | Some s \<Rightarrow> if s = [] then d else s)"

definition stripped_or :: "pystr option \<Rightarrow> pystr \<Rightarrow> pystr" where
  "stripped_or a d = (let s = strip (str_or a d) in if s = [] then d else s)"

text \<open>
  The event built by \<open>record\<close>; \<open>now\<close> is what \<open>time.time()\<close> returns, read only when
  no timestamp is given.
\<close>

definition make_event :: "(pystr \<Rightarrow> int option) \<Rightarrow> pyfloat \<Rightarrow> call \<Rightarrow> usage_event" where
  "make_event parse now c =
     \<lparr> api = stripped_or (c_api c) (str ''unknown''),
       model = stripped_or (c_model c) (str ''unknown''),
       source = stripped_or (c_source c) (str ''unknown''),
       auth_index = stripped_or (opt_or (c_auth_index c) (c_source c)) (str ''-''),
       failed = c_failed c,
       status_code = (case c_status_code c of None \<Rightarrow> 0 | Some sc \<Rightarrow> safe_int parse (PInt sc)),
       error_message = strip (str_or (c_error_message c) []),
       tokens = normalize_token_stats parse (c_tokens c),
       timestamp = (case c_timestamp c of None \<Rightarrow> now | Some ts \<Rightarrow> ts) \<rparr>"

definition record_event ::
    "(pystr \<Rightarrow> int option) \<Rightarrow> pyfloat \<Rightarrow> call \<Rightarrow> usage_tracker \<Rightarrow> usage_tracker" where
  "record_event parse now c st =
     st\<lparr> events := deque_append (maxlen st) (events st) (make_event parse now c) \<rparr>"

text \<open>\<open>reset\<close> returns the number of events removed and the new state.\<close>

definition reset_all :: "usage_tracker \<Rightarrow> int \<times> usage_tracker" where
  "reset_all st = (int (length (events st)), st\<lparr> events := [] \<rparr>)"

definition reset_source :: "pystr \<Rightarrow> usage_tracker \<Rightarrow> int \<times> usage_tracker" where
  "reset_source src st =
     (let target = strip src in
      if target = [] then (0, st)
      else
        (let before_len = int (length (events st));
             kept = filter (\<lambda>e. source e \<noteq> target) (events st);
             st' = st\<lparr> events := deque_of (maxlen st) kept \<rparr>
         in (before_len - int (length (events st')), st')))"

definition reset :: "pystr option \<Rightarrow> usage_tracker \<Rightarrow> int \<times> usage_tracker" where
  "reset src st =
     (case src of
        None \<Rightarrow> reset_all st
      | Some s \<Rightarrow> if s = [] then reset_all st else reset_source s st)"

definition snapshot_events :: "usage_tracker \<Rightarrow> usage_event list" where
  "snapshot_events st = events st"

text \<open>A run of \<open>record\<close> calls, each with the clock reading at the time of the call.\<close>

definition record_all ::
    "(pystr \<Rightarrow> int option) \<Rightarrow> usage_tracker \<Rightarrow> (pyfloat \<times> call) list \<Rightarrow> usage_tracker" where
  "record_all parse st calls = foldl (\<lambda>st (now, c). record_event parse now c st) st calls"

section \<open>Aggregation views\<close>

text \<open>
  The dictionaries built by the views are association lists in insertion order, with
  \<open>d.get(k, default)\<close>, \<open>d[k] = v\<close> and \<open>d.setdefault(k, default)\<close>.
\<close>

definition get_or :: "('k \<times> 'v) list \<Rightarrow> 'k \<Rightarrow> 'v \<Rightarrow> 'v" where
  "get_or d k dflt = (case map_of d k of None \<Rightarrow> dflt | Some v \<Rightarrow> v)"

definition setitem :: "'k \<Rightarrow> 'v \<Rightarrow> ('k \<times> 'v) list \<Rightarrow> ('k \<times> 'v) list" where
  "setitem k v d = AList.update k v d"

definition setdefault :: "'k \<Rightarrow> 'v \<Rightarrow> ('k \<times> 'v) list \<Rightarrow> 'v \<times> ('k \<times> 'v) list" where
  "setdefault k dflt d =
     (case map_of d k of None \<Rightarrow> (dflt, d @ [(k, dflt)]) | Some v \<Rightarrow> (v, d))"

record stats_item =
  calls_24h :: int
  success_24h :: int
  failed_24h :: int
  tokens_24h :: int

definition cutoff_24h :: "pyfloat \<Rightarrow> pyfloat" where
  "cutoff_24h now = float_sub now (Finite (24 * 3600))"

text \<open>One iteration of the loop of \<open>get_stats_24h\<close>.\<close>

definition stats_step ::
    "pyfloat \<Rightarrow> (pystr \<times> stats_item) list \<Rightarrow> usage_event \<Rightarrow> (pystr \<times> stats_item) list" where
  "stats_step cutoff stats event =
     (if float_lt (timestamp event) cutoff then stats
      else
        (let (item, stats) = setdefault (source event)
               \<lparr> calls_24h = 0, success_24h = 0, failed_24h = 0, tokens_24h = 0 \<rparr> stats;
             item = item\<lparr> calls_24h := calls_24h item + 1 \<rparr>;
             item = (if failed event then item\<lparr> failed_24h := failed_24h item + 1 \<rparr>
                     else item\<lparr> success_24h := success_24h item + 1 \<rparr>);
             item = item\<lparr> tokens_24h := tokens_24h item + total_tokens (tokens event) \<rparr>
         in setitem (source event) item stats))"

text \<open>\<open>now\<close> is the clock reading taken after the events have been copied.\<close>

definition get_stats_24h :: "pyfloat \<Rightarrow> usage_tracker \<Rightarrow> (pystr \<times> stats_item) list" where
  "get_stats_24h now st =
     (let events = snapshot_events st;
          cutoff = cutoff_24h now
      in foldl (stats_step cutoff) [] events)"

record aggregated =
  total_calls_24h :: int
  total_files :: int
  avg_calls_per_file :: pyfloat

text \<open>
  True division of two integers, \<open>a / b\<close>, gives the double nearest to the quotient.
  The rounding belongs to the interpreter, so the operation is the parameter \<open>truediv\<close>:
  the float \<open>a / b\<close> evaluates to for a divisor that is not zero.  The code divides only
  by a count that is not zero, and the quotient of two event counts is at most the number
  of events held, which is in the range of a double.
\<close>

definition get_aggregated_24h ::
    "(int \<Rightarrow> int \<Rightarrow> pyfloat) \<Rightarrow> pyfloat \<Rightarrow> usage_tracker \<Rightarrow> aggregated" where
  "get_aggregated_24h truediv now st =
     (let stats = get_stats_24h now st;
          total_calls = sum_list (map (\<lambda>(k, item). calls_24h item) stats);
          total_files = int (length stats);
          avg_calls = (if total_files \<noteq> 0 then truediv total_calls total_files
                       else Finite 0)
      in \<lparr> total_calls_24h = total_calls, total_files = total_files,
           avg_calls_per_file = avg_calls \<rparr>)"

text \<open>
  The \<open>datetime\<close> library is a parameter of \<open>snapshot\<close>:
  \<open>datetime.fromtimestamp(ts, tz=timezone.utc)\<close>, which raises for a timestamp outside
  the years it supports, and the three renderings of the result (\<open>strftime("%Y-%m-%d")\<close>,
  \<open>strftime("%H")\<close>, \<open>isoformat()\<close>).
\<close>

record 'dt datetime_rt =
  fromtimestamp :: "pyfloat \<Rightarrow> py_error + 'dt"
  strftime_day :: "'dt \<Rightarrow> pystr"
  strftime_hour :: "'dt \<Rightarrow> pystr"
  isoformat :: "'dt \<Rightarrow> pystr"

text \<open>\<open>s.replace(old, new)\<close> for a non-empty \<open>old\<close>: left to right, without overlaps.\<close>

function replace :: "pystr \<Rightarrow> pystr \<Rightarrow> pystr \<Rightarrow> pystr" where
  "replace old new s =
     (if s = [] \<or> old = [] then s
      else if take (length old) s = old then new @ replace old new (drop (length old) s)
      else hd s # replace old new (tl s))"
  by pat_completeness auto
termination
  by (relation "measure (\<lambda>(old, new, s). length s)") (auto simp: Suc_le_eq)

declare replace.simps [simp del]

record detail =
  d_timestamp :: pystr
  d_source :: pystr
  d_auth_index :: pystr
  d_tokens :: token_stats
  d_failed :: bool

record model_data =
  model_total_requests :: int
  model_total_tokens :: int
  details :: "detail list"

record api_data =
  api_total_requests :: int
  api_total_tokens :: int
  models :: "(pystr \<times> model_data) list"

record snapshot_view =
  total_requests :: int
  success_count :: int
  failure_count :: int
  all_total_tokens :: int
  apis :: "(pystr \<times> api_data) list"
  requests_by_day :: "(pystr \<times> int) list"
  requests_by_hour :: "(pystr \<times> int) list"
  tokens_by_day :: "(pystr \<times> int) list"
  tokens_by_hour :: "(pystr \<times> int) list"

text \<open>\<open>d[k] = d.get(k, 0) + n\<close>.\<close>

definition bump :: "pystr \<Rightarrow> int \<Rightarrow> (pystr \<times> int) list \<Rightarrow> (pystr \<times> int) list" where
  "bump k n d = setitem k (get_or d k 0 + n) d"

text \<open>One iteration of the loop of \<open>snapshot\<close>; the conversion of the timestamp may raise.\<close>

definition snapshot_step ::
    "'dt datetime_rt \<Rightarrow> (pystr \<Rightarrow> int option) \<Rightarrow> snapshot_view \<Rightarrow> usage_event
       \<Rightarrow> py_error + snapshot_view" where
  "snapshot_step rt parse acc event =
     (case fromtimestamp rt (timestamp event) of
        Inl err \<Rightarrow> Inl err
      | Inr dt \<Rightarrow>
         (let day_key = strftime_day rt dt;
              hour_key = strftime_hour rt dt;
              token_total = safe_int parse (PInt (total_tokens (tokens event)));
              acc = acc\<lparr> all_total_tokens := all_total_tokens acc + token_total \<rparr>;
              acc = (if failed event then acc\<lparr> failure_count := failure_count acc + 1 \<rparr>
                     else acc\<lparr> success_count := success_count acc + 1 \<rparr>);
              acc = acc\<lparr> requests_by_day := bump day_key 1 (requests_by_day acc) \<rparr>;
              acc = acc\<lparr> requests_by_hour := bump hour_key 1 (requests_by_hour acc) \<rparr>;
              acc = acc\<lparr> tokens_by_day := bump day_key token_total (tokens_by_day acc) \<rparr>;
              acc = acc\<lparr> tokens_by_hour := bump hour_key token_total (tokens_by_hour acc) \<rparr>;
              (api_d, apis1) = setdefault (api event)
                 \<lparr> api_total_requests = 0, api_total_tokens = 0, models = [] \<rparr> (apis acc);
              api_d = api_d\<lparr> api_total_requests := api_total_requests api_d + 1 \<rparr>;
              api_d = api_d\<lparr> api_total_tokens := api_total_tokens api_d + token_total \<rparr>;
              (model_d, models1) = setdefault (model event)
                 \<lparr> model_total_requests = 0, model_total_tokens = 0, details = [] \<rparr>
                 (models api_d);
              model_d = model_d\<lparr> model_total_requests := model_total_requests model_d + 1 \<rparr>;
              model_d = model_d\<lparr> model_total_tokens := model_total_tokens model_d + token_total \<rparr>;
              model_d = model_d\<lparr> details := details model_d @
                 [\<lparr> d_timestamp = replace (str ''+00:00'') (str ''Z'') (isoformat rt dt),
                    d_source = source event,
                    d_auth_index = auth_index event,
                    d_tokens = tokens event,
                    d_failed = failed event \<rparr>] \<rparr>;
              api_d = api_d\<lparr> models := setitem (model event) model_d models1 \<rparr>
          in Inr (acc\<lparr> apis := setitem (api event) api_d apis1 \<rparr>)))"

fun snapshot_loop ::
    "'dt datetime_rt \<Rightarrow> (pystr \<Rightarrow> int option) \<Rightarrow> snapshot_view \<Rightarrow> usage_event list
       \<Rightarrow> py_error + snapshot_view" where
  "snapshot_loop rt parse acc [] = Inr acc"
| "snapshot_loop rt parse acc (event # rest) =
     (case snapshot_step rt parse acc event of
        Inl err \<Rightarrow> Inl err
      | Inr acc' \<Rightarrow> snapshot_loop rt parse acc' rest)"

definition snapshot ::
    "'dt datetime_rt \<Rightarrow> (pystr \<Rightarrow> int option) \<Rightarrow> usage_tracker \<Rightarrow> py_error + snapshot_view" where
  "snapshot rt parse st =
     (let events = snapshot_events st
      in snapshot_loop rt parse
           \<lparr> total_requests = int (length events), success_count = 0, failure_count = 0,
             all_total_tokens = 0, apis = [], requests_by_day = [], requests_by_hour = [],
             tokens_by_day = [], tokens_by_hour = [] \<rparr>
           events)"

section \<open>Sample data\<close>

text \<open>
  Concrete inputs on which the model is evaluated below.  No sample holds a string in a
  token dictionary that denotes a number, so the sample \<open>parse\<close> may reject every string.
\<close>

definition no_parse :: "pystr \<Rightarrow> int option" where
  "no_parse s = None"

definition tokens_plain :: "pystr \<rightharpoonup> pyval" where
  "tokens_plain =
     [str ''prompt_tokens'' \<mapsto> PInt 100, str ''completion_tokens'' \<mapsto> PInt 50,
      str ''thoughts_tokens'' \<mapsto> PInt 7, str ''cachedTokens'' \<mapsto> PInt 1000]"

definition tokens_explicit :: "pystr \<rightharpoonup> pyval" where
  "tokens_explicit = tokens_plain(str ''totalTokenCount'' \<mapsto> PInt 999)"

definition tokens_malformed :: "pystr \<rightharpoonup> pyval" where
  "tokens_malformed =
     [str ''input_tokens'' \<mapsto> PStr (str ''abc''), str ''output_tokens'' \<mapsto> PInt (- 5),
      str ''reasoning_tokens'' \<mapsto> PFloat NaN, str ''cached_tokens'' \<mapsto> PList [PInt 1]]"

definition sample_call :: "string \<Rightarrow> bool \<Rightarrow> int \<Rightarrow> pyfloat \<Rightarrow> call" where
  "sample_call src fl n ts =
     \<lparr> c_api = Some (str ''chat''), c_model = Some (str ''gemini''), c_source = Some (str src),
       c_auth_index = None, c_failed = fl,
       c_tokens = Some [str ''totalTokens'' \<mapsto> PInt n],
       c_status_code = Some 200, c_error_message = None, c_timestamp = Some ts \<rparr>"

definition sample_event :: "string \<Rightarrow> bool \<Rightarrow> int \<Rightarrow> pyfloat \<Rightarrow> usage_event" where
  "sample_event src fl n ts = make_event no_parse (Finite 0) (sample_call src fl n ts)"

definition store_one :: usage_tracker where
  "store_one =
     \<lparr> events = [sample_event ''a.json'' False 10 (Finite 1700000000)], maxlen = 50000 \<rparr>"

definition store_two :: usage_tracker where
  "store_two =
     \<lparr> events = [sample_event ''a.json'' False 100 (Finite 1700000000),
                 sample_event ''b.json'' False 10 (Finite 1700000060)],
       maxlen = 2 \<rparr>"

definition store_four :: usage_tracker where
  "store_four =
     \<lparr> events = [sample_event ''a.json'' False 100 (Finite 1700000000),
                 sample_event ''b.json'' False 10 (Finite 1700000060),
                 sample_event ''a.json'' True 30 (Finite 1700000120),
                 sample_event ''c.json'' False 5 (Finite 1700000180)],
       maxlen = 50000 \<rparr>"

text \<open>
  A sample \<open>truediv\<close>: the quotient rounded to the nearest double, ties to the even
  mantissa, as the interpreter computes it.  \<open>bit_length\<close> is the number of binary digits
  of a natural number, \<open>exponent_of\<close> the exponent \<open>e\<close> with \<open>2 ^ e \<le> x < 2 ^ (e + 1)\<close>
  of a positive rational; a double carries 53 significant bits, and spaces its values by
  \<open>2 ^ (e - 52)\<close>, or by \<open>2 ^ (- 1074)\<close> below the normal range.  A quotient of magnitude
  \<open>2 ^ 1024\<close> or more after rounding, where the interpreter raises, is not a sample input.
\<close>

fun bit_length :: "nat \<Rightarrow> nat" where
  "bit_length n = (if n = 0 then 0 else Suc (bit_length (n div 2)))"

declare bit_length.simps [simp del]

definition pow2 :: "int \<Rightarrow> rat" where
  "pow2 e = (if 0 \<le> e then 2 ^ nat e else 1 / 2 ^ nat (- e))"

definition exponent_of :: "rat \<Rightarrow> int" where
  "exponent_of x =
     (let (p, q) = quotient_of x;
          e = int (bit_length (nat p)) - int (bit_length (nat q))
      in if pow2 e \<le> x then e else e - 1)"

definition round_half_even :: "rat \<Rightarrow> int" where
  "round_half_even x =
     (let f = \<lfloor>x\<rfloor>; d = x - of_int f
      in if d < 1 / 2 then f else if 1 / 2 < d then f + 1 else if even f then f else f + 1)"

definition nearest_double :: "rat \<Rightarrow> pyfloat" where
  "nearest_double x =
     (if x = 0 then Finite 0
      else
        (let e = exponent_of \<bar>x\<bar>;
             quantum = pow2 (max e (- 1022) - 52);
             r = of_int (round_half_even (x / quantum)) * quantum
         in if pow2 1024 \<le> \<bar>r\<bar> then (if 0 < r then PosInf else NegInf) else Finite r))"

definition nearest_truediv :: "int \<Rightarrow> int \<Rightarrow> pyfloat" where
  "nearest_truediv a b = nearest_double (of_int a / of_int b)"


text \<open>
  A sample \<open>datetime\<close> runtime for evaluating \<open>snapshot\<close>: it converts the whole-second
  timestamps of 1 January 1970 (UTC) to the second of that day, renders them as the library
  does, and refuses every other timestamp.
\<close>

definition two_digits :: "nat \<Rightarrow> pystr" where
  "two_digits n = [48 + n div 10, 48 + n mod 10]"

definition epoch_day_rt :: "nat datetime_rt" where
  "epoch_day_rt =
     \<lparr> fromtimestamp = (\<lambda>ts. case ts of
          Finite r \<Rightarrow> if r = of_int \<lfloor>r\<rfloor> \<and> 0 \<le> r \<and> r < 86400 then Inr (nat \<lfloor>r\<rfloor>)
                      else Inl OverflowError
        | NaN \<Rightarrow> Inl ValueError
        | _ \<Rightarrow> Inl OverflowError),
       strftime_day = (\<lambda>s. str ''1970-01-01''),
       strftime_hour = (\<lambda>s. two_digits (s div 3600)),
       isoformat = (\<lambda>s. str ''1970-01-01T'' @ two_digits (s div 3600) @ str '':'' @
                          two_digits (s div 60 mod 60) @ str '':'' @ two_digits (s mod 60) @
                          str ''+00:00'') \<rparr>"

definition store_day :: usage_tracker where
  "store_day =
     \<lparr> events = [sample_event ''a.json'' False 100 (Finite 3600),
                 sample_event ''b.json'' True 10 (Finite 7200),
                 sample_event ''a.json'' False 30 (Finite 3725)],
       maxlen = 50000 \<rparr>"

section \<open>Vocabulary of the properties\<close>

text \<open>The spellings under which a cached-token count may arrive.\<close>

definition cached_keys :: "pystr set" where
  "cached_keys = {str ''cached_tokens'', str ''cache_read_input_tokens'', str ''cachedTokens''}"

text \<open>The events a run of \<open>record\<close> calls builds, in call order.\<close>

definition made :: "(pystr \<Rightarrow> int option) \<Rightarrow> (pyfloat \<times> call) list \<Rightarrow> usage_event list" where
  "made parse calls = map (\<lambda>(now, c). make_event parse now c) calls"

text \<open>
  The events \<open>get_stats_24h\<close> does not skip: those whose timestamp does not compare less
  than the cutoff.
\<close>

definition in_window :: "pyfloat \<Rightarrow> usage_event \<Rightarrow> bool" where
  "in_window now e \<longleftrightarrow> \<not> float_lt (timestamp e) (cutoff_24h now)"

definition window :: "pyfloat \<Rightarrow> usage_tracker \<Rightarrow> usage_event list" where
  "window now st = filter (in_window now) (events st)"

text \<open>
  The entry the specification asks for under source \<open>s\<close>, given the qualifying events
  \<open>q\<close>: how many there are from \<open>s\<close>, how many of them succeeded and failed, and the sum
  of their \<open>total_tokens\<close>.
\<close>

definition stats_spec :: "usage_event list \<Rightarrow> pystr \<Rightarrow> stats_item" where
  "stats_spec q s =
     \<lparr> calls_24h = int (length (filter (\<lambda>e. source e = s) q)),
       success_24h = int (length (filter (\<lambda>e. source e = s \<and> \<not> failed e) q)),
       failed_24h = int (length (filter (\<lambda>e. source e = s \<and> failed e) q)),
       tokens_24h = sum_list (map (\<lambda>e. total_tokens (tokens e)) (filter (\<lambda>e. source e = s) q)) \<rparr>"

text \<open>The entry \<open>setdefault\<close> inserts, and the effect of one loop iteration on an entry.\<close>

definition zero_item :: stats_item where
  "zero_item = \<lparr> calls_24h = 0, success_24h = 0, failed_24h = 0, tokens_24h = 0 \<rparr>"

definition add_event :: "stats_item \<Rightarrow> usage_event \<Rightarrow> stats_item" where
  "add_event item e =
     item\<lparr> calls_24h := calls_24h item + 1,
           success_24h := success_24h item + (if failed e then 0 else 1),
           failed_24h := failed_24h item + (if failed e then 1 else 0),
           tokens_24h := tokens_24h item + total_tokens (tokens e) \<rparr>"

section \<open>Token normalisation: properties\<close>

lemma safe_int_nonneg: "0 \<le> safe_int parse v"
  by (simp add: safe_int_def split: sum.splits)

lemma safe_int_PNone: "safe_int parse PNone = 0"
  by (simp add: safe_int_def py_or_def)

lemma first_of_cong:
  "d1 (str k1) = d2 (str k1) \<Longrightarrow> d1 (str k2) = d2 (str k2) \<Longrightarrow> d1 (str k3) = d2 (str k3) \<Longrightarrow>
   first_of d1 k1 k2 k3 = first_of d2 k1 k2 k3"
  by (simp add: first_of_def dict_get_def)

lemma first_of_absent:
  "d (str k1) = None \<Longrightarrow> d (str k2) = None \<Longrightarrow> d (str k3) = None \<Longrightarrow>
   first_of d k1 k2 k3 = PNone"
  by (simp add: first_of_def dict_get_def py_or_def)

lemma normalize_token_data:
  "normalize_token_stats parse toks = normalize_token_stats parse (Some (token_data_of toks))"
  by (simp add: normalize_token_stats_def token_data_of_def)

lemma total_tokens_indep_cached:
  assumes "\<forall>k. k \<notin> cached_keys \<longrightarrow> d1 k = d2 k"
  shows "total_tokens (normalize_token_stats parse (Some d1)) =
         total_tokens (normalize_token_stats parse (Some d2))"
proof -
  have same: "first_of d1 k1 k2 k3 = first_of d2 k1 k2 k3"
    if "str k1 \<notin> cached_keys" "str k2 \<notin> cached_keys" "str k3 \<notin> cached_keys" for k1 k2 k3
    using that assms by (intro first_of_cong) auto
  have "first_of d1 ''input_tokens'' ''prompt_tokens'' ''inputTokens'' =
        first_of d2 ''input_tokens'' ''prompt_tokens'' ''inputTokens''"
    by (rule same) (simp_all add: cached_keys_def str_def)
  moreover have "first_of d1 ''output_tokens'' ''completion_tokens'' ''outputTokens'' =
                 first_of d2 ''output_tokens'' ''completion_tokens'' ''outputTokens''"
    by (rule same) (simp_all add: cached_keys_def str_def)
  moreover have "first_of d1 ''reasoning_tokens'' ''thoughts_tokens'' ''reasoningTokens'' =
                 first_of d2 ''reasoning_tokens'' ''thoughts_tokens'' ''reasoningTokens''"
    by (rule same) (simp_all add: cached_keys_def str_def)
  moreover have "first_of d1 ''total_tokens'' ''totalTokenCount'' ''totalTokens'' =
                 first_of d2 ''total_tokens'' ''totalTokenCount'' ''totalTokens''"
    by (rule same) (simp_all add: cached_keys_def str_def)
  ultimately show ?thesis
    by (simp add: normalize_token_stats_def Let_def token_data_of_def)
qed

text \<open>
  C3.  Whatever the argument (\<open>None\<close>, a dictionary with missing keys, with values that
  are not numbers, with negative numbers), \<open>normalize_token_stats\<close> returns its five
  fields and each of them is a non-negative integer.  The function is total: every
  exception raised inside \<open>_safe_int\<close> is a branch that yields 0.
\<close>

theorem normalize_token_stats_nonneg:
  "0 \<le> input_tokens (normalize_token_stats parse toks) \<and>
   0 \<le> output_tokens (normalize_token_stats parse toks) \<and>
   0 \<le> reasoning_tokens (normalize_token_stats parse toks) \<and>
   0 \<le> cached_tokens (normalize_token_stats parse toks) \<and>
   0 \<le> total_tokens (normalize_token_stats parse toks)"
  by (simp add: normalize_token_stats_def Let_def safe_int_nonneg)

theorem normalize_token_stats_nonneg_witness:
  "normalize_token_stats no_parse (Some tokens_malformed) =
     \<lparr> input_tokens = 0, output_tokens = 0, reasoning_tokens = 0, cached_tokens = 0,
       total_tokens = 0 \<rparr> \<and>
   normalize_token_stats no_parse None =
     \<lparr> input_tokens = 0, output_tokens = 0, reasoning_tokens = 0, cached_tokens = 0,
       total_tokens = 0 \<rparr> \<and>
   0 \<le> total_tokens (normalize_token_stats no_parse (Some tokens_malformed))"
  using normalize_token_stats_nonneg [of no_parse "Some tokens_malformed"]
  by (simp add: normalize_token_stats_def token_data_of_def first_of_def dict_get_def
      py_or_def safe_int_def tokens_malformed_def no_parse_def str_def Let_def)

text \<open>
  C4.  Let \<open>explicit\<close> be what the explicit total field resolves to.  If it is 0, and in
  particular if none of its three spellings is present, \<open>total_tokens\<close> is
  \<open>input_tokens + output_tokens + reasoning_tokens\<close>; otherwise \<open>total_tokens\<close> is
  \<open>explicit\<close>.  The cached-token fields never contribute: two dictionaries that differ
  only under the cached-token spellings give the same \<open>total_tokens\<close>.
\<close>

theorem total_tokens_fallback:
  "let d = token_data_of toks;
       r = normalize_token_stats parse toks;
       explicit = safe_int parse (first_of d ''total_tokens'' ''totalTokenCount'' ''totalTokens'')
   in (explicit = 0 \<longrightarrow>
         total_tokens r = input_tokens r + output_tokens r + reasoning_tokens r) \<and>
      (explicit \<noteq> 0 \<longrightarrow> total_tokens r = explicit) \<and>
      (d (str ''total_tokens'') = None \<and> d (str ''totalTokenCount'') = None \<and>
       d (str ''totalTokens'') = None \<longrightarrow> explicit = 0) \<and>
      (\<forall>d'. (\<forall>k. k \<notin> cached_keys \<longrightarrow> d' k = d k) \<longrightarrow>
         total_tokens (normalize_token_stats parse (Some d')) = total_tokens r)"
proof -
  let ?d = "token_data_of toks"
  have "total_tokens (normalize_token_stats parse (Some d')) =
        total_tokens (normalize_token_stats parse toks)"
    if "\<forall>k. k \<notin> cached_keys \<longrightarrow> d' k = ?d k" for d'
    using total_tokens_indep_cached[OF that, of parse] normalize_token_data[of parse toks]
    by simp
  moreover have "safe_int parse (first_of ?d ''total_tokens'' ''totalTokenCount'' ''totalTokens'') = 0"
    if "?d (str ''total_tokens'') = None \<and> ?d (str ''totalTokenCount'') = None \<and>
        ?d (str ''totalTokens'') = None"
    using that by (simp add: first_of_absent safe_int_PNone)
  ultimately show ?thesis
    by (simp add: Let_def) (simp add: normalize_token_stats_def Let_def)
qed

theorem total_tokens_fallback_witness:
  "safe_int no_parse (first_of tokens_plain ''total_tokens'' ''totalTokenCount'' ''totalTokens'') = 0 \<and>
   normalize_token_stats no_parse (Some tokens_plain) =
     \<lparr> input_tokens = 100, output_tokens = 50, reasoning_tokens = 7, cached_tokens = 1000,
       total_tokens = 157 \<rparr> \<and>
   safe_int no_parse (first_of tokens_explicit ''total_tokens'' ''totalTokenCount'' ''totalTokens'')
     = 999 \<and>
   total_tokens (normalize_token_stats no_parse (Some tokens_explicit)) = 999"
  using total_tokens_fallback [of "Some tokens_plain" no_parse]
        total_tokens_fallback [of "Some tokens_explicit" no_parse]
  by (simp add: normalize_token_stats_def token_data_of_def first_of_def dict_get_def
      py_or_def safe_int_def tokens_plain_def tokens_explicit_def str_def Let_def)

section \<open>The event store: properties\<close>

lemma deque_append_drop:
  "deque_append n (drop (length xs - n) xs) x = drop (length (xs @ [x]) - n) (xs @ [x])"
proof (cases "length xs < n")
  case True
  then show ?thesis by (simp add: deque_append_def)
next
  case False
  hence le: "n \<le> length xs" by simp
  show ?thesis
  proof (cases "n = 0")
    case True
    then show ?thesis by (simp add: deque_append_def)
  next
    case False
    with le have ne: "drop (length xs - n) xs \<noteq> []" by simp
    have len: "length (drop (length xs - n) xs) = n" using le by simp
    have "deque_append n (drop (length xs - n) xs) x = tl (drop (length xs - n) xs @ [x])"
      using le by (simp add: deque_append_def Let_def)
    also have "\<dots> = tl (drop (length xs - n) xs) @ [x]" using ne by simp
    also have "\<dots> = drop (Suc (length xs - n)) xs @ [x]" by (simp add: drop_Suc drop_tl)
    also have "\<dots> = drop (length (xs @ [x]) - n) (xs @ [x])" using le \<open>n \<noteq> 0\<close> by (simp add: Suc_diff_le)
    finally show ?thesis .
  qed
qed

lemma deque_of_drop: "deque_of n xs = drop (length xs - n) xs"
proof (induction xs rule: rev_induct)
  case Nil
  then show ?case by (simp add: deque_of_def)
next
  case (snoc x xs)
  have "deque_of n (xs @ [x]) = deque_append n (deque_of n xs) x"
    by (simp add: deque_of_def)
  then show ?case using snoc deque_append_drop[of n xs x] by simp
qed

lemma deque_of_id: "length xs \<le> n \<Longrightarrow> deque_of n xs = xs"
  by (simp add: deque_of_drop)

lemma length_deque_of: "length (deque_of n xs) \<le> n"
  by (simp add: deque_of_drop)

lemma length_filter_split:
  "int (length xs) - int (length (filter (\<lambda>x. \<not> P x) xs)) = int (length (filter P xs))"
  using sum_length_filter_compl[of P xs] by simp

lemma maxlen_record_event [simp]: "maxlen (record_event parse now c st) = maxlen st"
  by (simp add: record_event_def)

lemma maxlen_record_all [simp]: "maxlen (record_all parse st calls) = maxlen st"
  by (induction calls rule: rev_induct) (simp_all add: record_all_def split: prod.splits)

lemma record_all_snoc:
  "record_all parse st (calls @ [(now, c)]) = record_event parse now c (record_all parse st calls)"
  by (simp add: record_all_def)

lemma events_record_all:
  assumes "length (events st) \<le> maxlen st"
  shows "events (record_all parse st calls) =
         drop (length (events st) + length calls - maxlen st) (events st @ made parse calls)"
proof (induction calls rule: rev_induct)
  case Nil
  then show ?case using assms by (simp add: record_all_def made_def)
next
  case (snoc nc calls)
  obtain now c where nc: "nc = (now, c)" by (cases nc)
  let ?all = "events st @ made parse calls"
  have "events (record_all parse st (calls @ [nc])) =
        deque_append (maxlen st) (drop (length ?all - maxlen st) ?all) (make_event parse now c)"
    using snoc by (simp add: nc record_all_snoc record_event_def made_def)
  also have "\<dots> = drop (length (?all @ [make_event parse now c]) - maxlen st) (?all @ [make_event parse now c])"
    by (rule deque_append_drop)
  finally show ?case by (simp add: nc made_def)
qed

text \<open>Every state a tracker can reach respects the bound of its deque.\<close>

lemma bounded_UsageTracker:
  "UsageTracker n = Inr st \<Longrightarrow> length (events st) \<le> maxlen st"
  by (auto simp: UsageTracker_def split: if_splits)

lemma bounded_record_event:
  "length (events st) \<le> maxlen st \<Longrightarrow>
   length (events (record_event parse now c st)) \<le> maxlen (record_event parse now c st)"
  by (auto simp: record_event_def deque_append_def Let_def)

lemma bounded_reset:
  "length (events st) \<le> maxlen st \<Longrightarrow>
   length (events (snd (reset src st))) \<le> maxlen (snd (reset src st))"
  by (auto simp: reset_def reset_all_def reset_source_def Let_def length_deque_of
      split: option.splits)

lemma strip_Nil [simp]: "strip [] = []"
  by (simp add: strip_def)

lemma source_sample_event:
  "source (sample_event src fl n ts) = stripped_or (Some (str src)) (str ''unknown'')"
  by (simp add: sample_event_def sample_call_def make_event_def)

lemma source_sample_json [simp]:
  "source (sample_event ''a.json'' fl n ts) = str ''a.json''"
  "source (sample_event ''b.json'' fl n ts) = str ''b.json''"
  "source (sample_event ''c.json'' fl n ts) = str ''c.json''"
  by (simp_all add: source_sample_event stripped_or_def str_or_def str_def strip_def isspace_def)

text \<open>
  C2.  A tracker created with capacity \<open>n\<close> (50000 when none is given) never holds more
  than \<open>n\<close> events, whatever \<open>record\<close> calls follow: it holds the last \<open>n\<close> events made, in
  call order.  After \<open>n + 1\<close> calls it holds exactly \<open>n\<close> events, all but the oldest.
\<close>

theorem record_capacity_fifo:
  assumes "UsageTracker n = Inr st0"
  shows "UsageTracker default_max_details = Inr \<lparr> events = [], maxlen = 50000 \<rparr> \<and>
         maxlen st0 = nat n \<and>
         length (events (record_all parse st0 calls)) \<le> nat n \<and>
         events (record_all parse st0 calls) = drop (length calls - nat n) (made parse calls) \<and>
         (length calls = nat n + 1 \<longrightarrow>
            length (events (record_all parse st0 calls)) = nat n \<and>
            events (record_all parse st0 calls) = tl (made parse calls))"
proof -
  from assms have st0: "st0 = \<lparr> events = [], maxlen = nat n \<rparr>"
    by (auto simp: UsageTracker_def split: if_splits)
  have ev: "events (record_all parse st0 calls) = drop (length calls - nat n) (made parse calls)"
    using events_record_all[of st0 parse calls] by (simp add: st0)
  have len: "length (made parse calls) = length calls" by (simp add: made_def)
  have m: "maxlen st0 = nat n" by (simp add: st0)
  have bound: "length (events (record_all parse st0 calls)) \<le> nat n"
    unfolding ev by (simp add: len)
  have full: "length (events (record_all parse st0 calls)) = nat n \<and>
              events (record_all parse st0 calls) = tl (made parse calls)"
    if "length calls = nat n + 1"
    unfolding ev using that by (simp add: len drop_Suc)
  have dflt: "UsageTracker default_max_details = Inr \<lparr> events = [], maxlen = 50000 \<rparr>"
    by (simp add: UsageTracker_def default_max_details_def)
  from dflt m bound ev full show ?thesis by blast
qed

theorem record_capacity_fifo_witness:
  "UsageTracker 2 = Inr \<lparr> events = [], maxlen = 2 \<rparr> \<and>
   events (record_all no_parse \<lparr> events = [], maxlen = 2 \<rparr>
             [(Finite 0, sample_call ''a.json'' False 100 (Finite 1700000000)),
              (Finite 0, sample_call ''b.json'' False 10 (Finite 1700000060)),
              (Finite 0, sample_call ''c.json'' False 5 (Finite 1700000180))]) =
     [sample_event ''b.json'' False 10 (Finite 1700000060),
      sample_event ''c.json'' False 5 (Finite 1700000180)]"
proof -
  have u: "UsageTracker 2 = Inr \<lparr> events = [], maxlen = 2 \<rparr>"
    by (simp add: UsageTracker_def)
  show ?thesis
    using record_capacity_fifo[OF u, of no_parse
        "[(Finite 0, sample_call ''a.json'' False 100 (Finite 1700000000)),
          (Finite 0, sample_call ''b.json'' False 10 (Finite 1700000060)),
          (Finite 0, sample_call ''c.json'' False 5 (Finite 1700000180))]"] u
    by (simp add: made_def sample_event_def)
qed

text \<open>
  C1, as the code has it.  A source argument that is not empty but consists of whitespace
  only makes \<open>reset\<close> a no-operation: nothing is removed, the store is unchanged and the
  result is 0.  The empty string is treated like an absent argument: the whole store is
  cleared and the number of events it held is returned.
\<close>

theorem reset_blank_source:
  "(S \<noteq> [] \<and> strip S = [] \<longrightarrow> reset (Some S) st = (0, st)) \<and>
   reset (Some []) st = (int (length (events st)), st\<lparr> events := [] \<rparr>) \<and>
   reset None st = (int (length (events st)), st\<lparr> events := [] \<rparr>)"
  by (simp add: reset_def reset_source_def reset_all_def)

theorem reset_blank_source_witness:
  "str ''  '' \<noteq> [] \<and> strip (str ''  '') = [] \<and> reset (Some (str ''  '')) store_one = (0, store_one)"
  using reset_blank_source[of "str ''  ''" store_one]
  by (simp add: str_def strip_def isspace_def)

text \<open>
  C1, as stated, fails for the empty string: on the store that one \<open>record\<close> call leaves,
  \<open>reset(source="")\<close> removes the event and returns 1.
\<close>

theorem reset_empty_source_counterexample:
  "record_event no_parse (Finite 0) (sample_call ''a.json'' False 10 (Finite 1700000000))
     \<lparr> events = [], maxlen = 50000 \<rparr> = store_one \<and>
   reset (Some (str '''')) store_one = (1, store_one\<lparr> events := [] \<rparr>) \<and>
   reset (Some (str '''')) store_one \<noteq> (0, store_one)"
  by (simp add: reset_def reset_all_def store_one_def str_def record_event_def deque_append_def
      sample_event_def)

text \<open>
  C5.  For a source argument \<open>S\<close> that is not empty after trimming, \<open>reset\<close> removes
  exactly the events whose \<open>source\<close> is the trimmed \<open>S\<close>, returns how many they were, and
  keeps the other events in their insertion order.  The store is a bounded deque, so it
  holds at most \<open>maxlen\<close> events.
\<close>

theorem reset_source_removes_matching:
  assumes "strip S \<noteq> []" and "length (events st) \<le> maxlen st"
  shows "reset (Some S) st =
           (int (length (filter (\<lambda>e. source e = strip S) (events st))),
            st\<lparr> events := filter (\<lambda>e. source e \<noteq> strip S) (events st) \<rparr>)"
proof -
  from assms(1) have "S \<noteq> []" by auto
  moreover have "length (filter (\<lambda>e. source e \<noteq> strip S) (events st)) \<le> maxlen st"
    using assms(2) length_filter_le[of "\<lambda>e. source e \<noteq> strip S" "events st"] by linarith
  ultimately show ?thesis
    using assms(1) length_filter_split[of "events st" "\<lambda>e. source e = strip S"]
    by (simp add: reset_def reset_source_def Let_def deque_of_id)
qed

theorem reset_source_removes_matching_witness:
  "strip (str '' a.json '') \<noteq> [] \<and> length (events store_four) \<le> maxlen store_four \<and>
   reset (Some (str '' a.json '')) store_four =
     (2, store_four\<lparr> events := [sample_event ''b.json'' False 10 (Finite 1700000060),
                                 sample_event ''c.json'' False 5 (Finite 1700000180)] \<rparr>)"
proof -
  have s: "strip (str '' a.json '') = str ''a.json''"
    by (simp add: str_def strip_def isspace_def)
  have ne: "strip (str '' a.json '') \<noteq> []" by (simp add: s) (simp add: str_def)
  have wf: "length (events store_four) \<le> maxlen store_four" by (simp add: store_four_def)
  have neq: "str ''b.json'' \<noteq> str ''a.json''" "str ''c.json'' \<noteq> str ''a.json''"
    by (simp_all add: str_def)
  show ?thesis
    using reset_source_removes_matching[OF ne wf] ne wf
    by (simp add: s store_four_def neq)
qed

text \<open>
  C10.  For a source argument that is not empty after trimming, \<open>reset\<close> leaves
  \<open>maxlen\<close> as it was.  The rebuilt deque holds at most \<open>maxlen\<close> events, and the
  \<open>record\<close> calls that follow keep evicting at that capacity: the store then holds the
  last \<open>maxlen\<close> of the events kept and the events recorded since.
\<close>

theorem reset_source_keeps_maxlen:
  assumes "strip S \<noteq> []"
  shows "maxlen (snd (reset (Some S) st)) = maxlen st \<and>
         length (events (snd (reset (Some S) st))) \<le> maxlen st \<and>
         maxlen (record_all parse (snd (reset (Some S) st)) calls) = maxlen st \<and>
         length (events (record_all parse (snd (reset (Some S) st)) calls)) \<le> maxlen st \<and>
         events (record_all parse (snd (reset (Some S) st)) calls) =
           drop (length (events (snd (reset (Some S) st))) + length calls - maxlen st)
             (events (snd (reset (Some S) st)) @ made parse calls)"
proof -
  let ?st' = "snd (reset (Some S) st)"
  from assms have "S \<noteq> []" by auto
  hence st': "?st' = st\<lparr> events := deque_of (maxlen st) (filter (\<lambda>e. source e \<noteq> strip S) (events st)) \<rparr>"
    using assms by (simp add: reset_def reset_source_def Let_def)
  have m: "maxlen ?st' = maxlen st" by (simp add: st')
  have wf: "length (events ?st') \<le> maxlen ?st'"
    by (simp add: st' length_deque_of)
  have ev: "events (record_all parse ?st' calls) =
        drop (length (events ?st') + length calls - maxlen ?st') (events ?st' @ made parse calls)"
    by (rule events_record_all[OF wf])
  have "length (events (record_all parse ?st' calls)) \<le> maxlen st"
    unfolding ev m using wf m by (simp add: made_def)
  with m wf ev show ?thesis by simp
qed

theorem reset_source_keeps_maxlen_witness:
  "strip (str ''a.json'') \<noteq> [] \<and>
   snd (reset (Some (str ''a.json'')) store_two) =
     \<lparr> events = [sample_event ''b.json'' False 10 (Finite 1700000060)], maxlen = 2 \<rparr> \<and>
   events (record_all no_parse (snd (reset (Some (str ''a.json'')) store_two))
             [(Finite 0, sample_call ''c.json'' False 5 (Finite 1700000180)),
              (Finite 0, sample_call ''a.json'' True 30 (Finite 1700000240))]) =
     [sample_event ''c.json'' False 5 (Finite 1700000180),
      sample_event ''a.json'' True 30 (Finite 1700000240)]"
proof -
  have s: "strip (str ''a.json'') = str ''a.json''"
    by (simp add: str_def strip_def isspace_def)
  have ne: "strip (str ''a.json'') \<noteq> []" by (simp add: s) (simp add: str_def)
  have neq: "str ''b.json'' \<noteq> str ''a.json''" by (simp add: str_def)
  have r: "snd (reset (Some (str ''a.json'')) store_two) =
     \<lparr> events = [sample_event ''b.json'' False 10 (Finite 1700000060)], maxlen = 2 \<rparr>"
    using ne by (simp add: reset_def reset_source_def Let_def s store_two_def neq deque_of_def deque_append_def)
  show ?thesis
    using reset_source_keeps_maxlen[OF ne, of store_two no_parse
        "[(Finite 0, sample_call ''c.json'' False 5 (Finite 1700000180)),
          (Finite 0, sample_call ''a.json'' True 30 (Finite 1700000240))]"] ne
    by (simp add: r made_def sample_event_def)
qed

section \<open>Aggregation views: properties\<close>

lemma update_snoc_same:
  "map_of d k = None \<Longrightarrow> AList.update k v (d @ [(k, v0)]) = AList.update k v d"
  by (induction d) (auto split: if_splits)

lemma stats_step_eq:
  "stats_step cutoff stats e =
     (if float_lt (timestamp e) cutoff then stats
      else AList.update (source e) (add_event (get_or stats (source e) zero_item) e) stats)"
  by (cases "map_of stats (source e)")
     (auto simp: stats_step_def setdefault_def setitem_def get_or_def zero_item_def add_event_def
        update_snoc_same Let_def)

lemma stats_spec_empty: "s \<notin> source ` set q \<Longrightarrow> stats_spec q s = zero_item"
proof -
  assume "s \<notin> source ` set q"
  hence "filter (\<lambda>e. source e = s) q = []" by (auto simp: filter_empty_conv)
  moreover from \<open>s \<notin> source ` set q\<close> have "filter (\<lambda>e. source e = s \<and> \<not> failed e) q = []"
    by (auto simp: filter_empty_conv)
  moreover from \<open>s \<notin> source ` set q\<close> have "filter (\<lambda>e. source e = s \<and> failed e) q = []"
    by (auto simp: filter_empty_conv)
  ultimately show ?thesis by (simp add: stats_spec_def zero_item_def)
qed

lemma stats_spec_snoc_same:
  "add_event (stats_spec q (source e)) e = stats_spec (q @ [e]) (source e)"
  by (simp add: stats_spec_def add_event_def)

lemma stats_spec_snoc_other:
  "source e \<noteq> s \<Longrightarrow> stats_spec (q @ [e]) s = stats_spec q s"
  by (simp add: stats_spec_def)

lemma stats_fold:
  "distinct (map fst (foldl (stats_step cutoff) [] evs)) \<and>
   map_of (foldl (stats_step cutoff) [] evs) =
     (\<lambda>s. if s \<in> source ` set (filter (\<lambda>e. \<not> float_lt (timestamp e) cutoff) evs)
          then Some (stats_spec (filter (\<lambda>e. \<not> float_lt (timestamp e) cutoff) evs) s)
          else None)"
proof (induction evs rule: rev_induct)
  case Nil
  then show ?case by simp
next
  case (snoc e evs)
  let ?stats = "foldl (stats_step cutoff) [] evs"
  let ?q = "filter (\<lambda>e. \<not> float_lt (timestamp e) cutoff) evs"
  from snoc have dist: "distinct (map fst ?stats)"
    and mp: "map_of ?stats = (\<lambda>s. if s \<in> source ` set ?q then Some (stats_spec ?q s) else None)"
    by auto
  have unfold: "foldl (stats_step cutoff) [] (evs @ [e]) = stats_step cutoff ?stats e"
    by simp
  show ?case
  proof (cases "float_lt (timestamp e) cutoff")
    case True
    have s1: "stats_step cutoff ?stats e = ?stats"
      using True stats_step_eq[of cutoff ?stats e] by simp
    have q1: "filter (\<lambda>e. \<not> float_lt (timestamp e) cutoff) (evs @ [e]) = ?q"
      using True by simp
    show ?thesis unfolding unfold s1 q1 using dist mp by (intro conjI)
  next
    case False
    have g: "get_or ?stats (source e) zero_item = stats_spec ?q (source e)"
      by (simp add: get_or_def mp stats_spec_empty)
    have q': "filter (\<lambda>e. \<not> float_lt (timestamp e) cutoff) (evs @ [e]) = ?q @ [e]"
      using False by simp
    have step: "stats_step cutoff ?stats e =
                AList.update (source e) (stats_spec (?q @ [e]) (source e)) ?stats"
      using False stats_step_eq[of cutoff ?stats e] by (simp add: g stats_spec_snoc_same)
    have d': "distinct (map fst (stats_step cutoff ?stats e))"
      unfolding step using dist by (rule distinct_update)
    have m': "map_of (stats_step cutoff ?stats e) s =
        (if s \<in> source ` set (?q @ [e]) then Some (stats_spec (?q @ [e]) s) else None)" for s
      unfolding step update_conv' using mp
      by (cases "s = source e") (auto simp: stats_spec_snoc_other)
    from m' have "map_of (stats_step cutoff ?stats e) =
        (\<lambda>s. if s \<in> source ` set (?q @ [e]) then Some (stats_spec (?q @ [e]) s) else None)"
      by (intro ext)
    with d' show ?thesis unfolding unfold q' by (intro conjI)
  qed
qed

lemma sample_event_fields [simp]:
  "timestamp (sample_event src fl n ts) = ts"
  "failed (sample_event src fl n ts) = fl"
  "total_tokens (tokens (sample_event src fl n ts)) = (if n > 0 then n else 0)"
  by (simp_all add: sample_event_def sample_call_def make_event_def normalize_token_stats_def
      token_data_of_def first_of_def dict_get_def py_or_def safe_int_def str_def Let_def)


lemma get_stats_24h_fold:
  "get_stats_24h now st = foldl (stats_step (cutoff_24h now)) [] (events st)"
  by (simp add: get_stats_24h_def snapshot_events_def Let_def)

lemma window_filter:
  "window now st = filter (\<lambda>e. \<not> float_lt (timestamp e) (cutoff_24h now)) (events st)"
  by (simp add: window_def in_window_def[abs_def])

lemma sum_list_update:
  fixes g :: "'v \<Rightarrow> int"
  shows "sum_list (map (\<lambda>(k, v). g v) (AList.update k v al)) =
         sum_list (map (\<lambda>(k, v). g v) al) + g v -
           (case map_of al k of None \<Rightarrow> 0 | Some v0 \<Rightarrow> g v0)"
  by (induction al) (auto split: option.splits)

lemma calls_fold:
  "sum_list (map (\<lambda>(k, item). calls_24h item) (foldl (stats_step cutoff) [] evs)) =
   int (length (filter (\<lambda>e. \<not> float_lt (timestamp e) cutoff) evs))"
proof (induction evs rule: rev_induct)
  case Nil
  then show ?case by simp
next
  case (snoc e evs)
  let ?stats = "foldl (stats_step cutoff) [] evs"
  have unfold: "foldl (stats_step cutoff) [] (evs @ [e]) = stats_step cutoff ?stats e"
    by simp
  show ?case
  proof (cases "float_lt (timestamp e) cutoff")
    case True
    have "stats_step cutoff ?stats e = ?stats"
      using True stats_step_eq[of cutoff ?stats e] by simp
    with snoc True show ?thesis unfolding unfold by simp
  next
    case False
    have "stats_step cutoff ?stats e =
          AList.update (source e) (add_event (get_or ?stats (source e) zero_item) e) ?stats"
      using False stats_step_eq[of cutoff ?stats e] by simp
    hence "sum_list (map (\<lambda>(k, item). calls_24h item) (stats_step cutoff ?stats e)) =
           sum_list (map (\<lambda>(k, item). calls_24h item) ?stats) + 1"
      by (simp add: sum_list_update add_event_def get_or_def zero_item_def split: option.splits)
    with snoc False show ?thesis unfolding unfold by simp
  qed
qed

lemma keys_get_stats_24h:
  "fst ` set (get_stats_24h now st) = source ` set (window now st)"
proof -
  have "fst ` set (get_stats_24h now st) = dom (map_of (get_stats_24h now st))"
    by (simp add: dom_map_of_conv_image_fst)
  also have "\<dots> = source ` set (window now st)"
    using stats_fold[of "cutoff_24h now" "events st"]
    by (auto simp only: get_stats_24h_fold window_filter dom_def split: if_splits)
  finally show ?thesis .
qed

lemma length_get_stats_24h:
  "length (get_stats_24h now st) = card (source ` set (window now st))"
proof -
  have "distinct (map fst (get_stats_24h now st))"
    using stats_fold[of "cutoff_24h now" "events st"] by (simp only: get_stats_24h_fold)
  hence "card (set (map fst (get_stats_24h now st))) = length (map fst (get_stats_24h now st))"
    by (rule distinct_card)
  thus ?thesis using keys_get_stats_24h[of now st] by simp
qed




lemma nearest_truediv_4_3:
  "nearest_truediv 4 3 = Finite (6004799503160661 / 4503599627370496)"
  by code_simp

text \<open>
  C7.  \<open>get_aggregated_24h\<close> returns as \<open>total_calls_24h\<close> the sum of \<open>calls_24h\<close> over the
  entries of \<open>get_stats_24h\<close>, which is the number of included events; as \<open>total_files\<close>
  the number of entries, which is the number of distinct sources among the included
  events; and as \<open>avg_calls_per_file\<close> the float that \<open>total_calls_24h / total_files\<close>
  evaluates to, or 0 when \<open>total_files\<close> is 0, where the code does not divide.
\<close>

theorem get_aggregated_24h_spec:
  "total_calls_24h (get_aggregated_24h truediv now st) =
     sum_list (map (\<lambda>(k, item). calls_24h item) (get_stats_24h now st)) \<and>
   total_calls_24h (get_aggregated_24h truediv now st) = int (length (window now st)) \<and>
   total_files (get_aggregated_24h truediv now st) = int (length (get_stats_24h now st)) \<and>
   total_files (get_aggregated_24h truediv now st) = int (card (source ` set (window now st))) \<and>
   avg_calls_per_file (get_aggregated_24h truediv now st) =
     (if total_files (get_aggregated_24h truediv now st) = 0 then Finite 0
      else truediv (total_calls_24h (get_aggregated_24h truediv now st))
                   (total_files (get_aggregated_24h truediv now st)))"
proof -
  have c: "sum_list (map (\<lambda>(k, item). calls_24h item) (get_stats_24h now st)) =
           int (length (window now st))"
    using calls_fold[of "cutoff_24h now" "events st"]
    by (simp only: get_stats_24h_fold window_filter)
  have tc: "total_calls_24h (get_aggregated_24h truediv now st) =
        sum_list (map (\<lambda>(k, item). calls_24h item) (get_stats_24h now st))"
    by (simp add: get_aggregated_24h_def Let_def)
  have tf: "total_files (get_aggregated_24h truediv now st) = int (length (get_stats_24h now st))"
    by (simp add: get_aggregated_24h_def Let_def)
  have av: "avg_calls_per_file (get_aggregated_24h truediv now st) =
     (if total_files (get_aggregated_24h truediv now st) = 0 then Finite 0
      else truediv (total_calls_24h (get_aggregated_24h truediv now st))
                   (total_files (get_aggregated_24h truediv now st)))"
    by (simp add: get_aggregated_24h_def Let_def)
  from tc tf av c length_get_stats_24h[of now st] show ?thesis by simp
qed

theorem get_aggregated_24h_spec_witness:
  "get_aggregated_24h nearest_truediv (Finite 1700000200) store_four =
     \<lparr> total_calls_24h = 4, total_files = 3,
       avg_calls_per_file = Finite (6004799503160661 / 4503599627370496) \<rparr> \<and>
   get_aggregated_24h nearest_truediv (Finite 1700000200) \<lparr> events = [], maxlen = 50000 \<rparr> =
     \<lparr> total_calls_24h = 0, total_files = 0, avg_calls_per_file = Finite 0 \<rparr>"
  using get_aggregated_24h_spec [of nearest_truediv "Finite 1700000200" store_four]
        get_aggregated_24h_spec [of nearest_truediv "Finite 1700000200"
                                    "\<lparr> events = [], maxlen = 50000 \<rparr>"]
  by (simp add: get_aggregated_24h_def get_stats_24h_fold store_four_def stats_step_def
      cutoff_24h_def setdefault_def setitem_def str_def Let_def nearest_truediv_4_3)

lemma sum_list_bump: "sum_list (map snd (bump k n d)) = sum_list (map snd d) + n"
proof -
  have "sum_list (map (\<lambda>(k, v). v) (AList.update k (get_or d k 0 + n) d)) =
        sum_list (map (\<lambda>(k, v). v) d) + n"
    by (simp add: sum_list_update[where g="\<lambda>v. v"] get_or_def split: option.splits)
  thus ?thesis by (simp add: bump_def setitem_def case_prod_unfold)
qed

lemma distinct_bump: "distinct (map fst d) \<Longrightarrow> distinct (map fst (bump k n d))"
  by (simp add: bump_def setitem_def distinct_update)

lemma snapshot_step_Inr:
  assumes "snapshot_step rt parse acc e = Inr acc'"
  shows "total_requests acc' = total_requests acc"
    and "success_count acc' + failure_count acc' = success_count acc + failure_count acc + 1"
    and "sum_list (map snd (requests_by_day acc')) = sum_list (map snd (requests_by_day acc)) + 1"
    and "sum_list (map snd (requests_by_hour acc')) = sum_list (map snd (requests_by_hour acc)) + 1"
    and "distinct (map fst (requests_by_day acc)) \<Longrightarrow> distinct (map fst (requests_by_day acc'))"
    and "distinct (map fst (requests_by_hour acc)) \<Longrightarrow> distinct (map fst (requests_by_hour acc'))"
  using assms
  by (auto simp: snapshot_step_def Let_def sum_list_bump distinct_bump
      split: sum.splits prod.splits if_splits)

lemma snapshot_step_returns:
  "(\<exists>acc'. snapshot_step rt parse acc e = Inr acc') \<longleftrightarrow>
   (\<exists>dt. fromtimestamp rt (timestamp e) = Inr dt)"
  by (auto simp: snapshot_step_def Let_def split: sum.splits prod.splits)


lemma snapshot_loop_Inr:
  "snapshot_loop rt parse acc evs = Inr m \<Longrightarrow>
   total_requests m = total_requests acc \<and>
   success_count m + failure_count m = success_count acc + failure_count acc + int (length evs) \<and>
   sum_list (map snd (requests_by_day m)) =
     sum_list (map snd (requests_by_day acc)) + int (length evs) \<and>
   sum_list (map snd (requests_by_hour m)) =
     sum_list (map snd (requests_by_hour acc)) + int (length evs) \<and>
   (distinct (map fst (requests_by_day acc)) \<longrightarrow> distinct (map fst (requests_by_day m))) \<and>
   (distinct (map fst (requests_by_hour acc)) \<longrightarrow> distinct (map fst (requests_by_hour m)))"
proof (induction evs arbitrary: acc)
  case Nil
  then show ?case by simp
next
  case (Cons e evs)
  from Cons.prems obtain acc' where
    step: "snapshot_step rt parse acc e = Inr acc'" and
    rest: "snapshot_loop rt parse acc' evs = Inr m"
    by (auto split: sum.splits)
  from Cons.IH[OF rest] snapshot_step_Inr[OF step] show ?case by simp
qed

lemma snapshot_loop_returns:
  "(\<exists>m. snapshot_loop rt parse acc evs = Inr m) \<longleftrightarrow>
   (\<forall>e\<in>set evs. \<exists>dt. fromtimestamp rt (timestamp e) = Inr dt)"
proof (induction evs arbitrary: acc)
  case Nil
  then show ?case by simp
next
  case (Cons e evs)
  show ?case
  proof (cases "snapshot_step rt parse acc e")
    case (Inl err)
    hence "\<not> (\<exists>dt. fromtimestamp rt (timestamp e) = Inr dt)"
      using snapshot_step_returns[of rt parse acc e] by simp
    with Inl show ?thesis by simp
  next
    case (Inr acc')
    hence "\<exists>dt. fromtimestamp rt (timestamp e) = Inr dt"
      using snapshot_step_returns[of rt parse acc e] by blast
    with Inr Cons.IH[of acc'] show ?thesis by simp
  qed
qed

lemma sample_event_names [simp]:
  "api (sample_event src fl n ts) = str ''chat''"
  "model (sample_event src fl n ts) = str ''gemini''"
  by (simp_all add: sample_event_def sample_call_def make_event_def stripped_or_def str_or_def
      str_def strip_def isspace_def)

lemma epoch_day_rt_simps:
  "fromtimestamp epoch_day_rt (Finite 3600) = Inr 3600"
  "fromtimestamp epoch_day_rt (Finite 7200) = Inr 7200"
  "fromtimestamp epoch_day_rt (Finite 3725) = Inr 3725"
  "strftime_day epoch_day_rt s = str ''1970-01-01''"
  "strftime_hour epoch_day_rt 3600 = str ''01''"
  "strftime_hour epoch_day_rt 7200 = str ''02''"
  "strftime_hour epoch_day_rt 3725 = str ''01''"
  by (simp_all add: epoch_day_rt_def two_digits_def str_def)

lemma str_neq: "str ''02'' \<noteq> str ''01''" "str ''01'' \<noteq> str ''02''"
  by (simp_all add: str_def)

lemma store_day_eval:
  "map_sum id (\<lambda>m. (total_requests m, success_count m, failure_count m,
                    requests_by_day m, requests_by_hour m))
     (snapshot epoch_day_rt no_parse store_day) =
   Inr (3, 2, 1, [(str ''1970-01-01'', 3)], [(str ''01'', 2), (str ''02'', 1)])"
  by (simp add: snapshot_def snapshot_events_def store_day_def snapshot_step_def
      epoch_day_rt_simps bump_def setitem_def setdefault_def get_or_def str_neq Let_def)

text \<open>
  C8.  Whenever \<open>snapshot\<close> returns a mapping, its \<open>total_requests\<close> is the number of
  events held, \<open>total_requests = success_count + failure_count\<close>, and the values of
  \<open>requests_by_day\<close> and of \<open>requests_by_hour\<close> each sum to \<open>total_requests\<close> (both are
  dictionaries: their keys are distinct).  It returns a mapping exactly when the library
  can convert the timestamp of every event held.
\<close>

theorem snapshot_totals:
  "(snapshot rt parse st = Inr m \<longrightarrow>
      total_requests m = int (length (events st)) \<and>
      total_requests m = success_count m + failure_count m \<and>
      sum_list (map snd (requests_by_day m)) = total_requests m \<and>
      sum_list (map snd (requests_by_hour m)) = total_requests m \<and>
      distinct (map fst (requests_by_day m)) \<and> distinct (map fst (requests_by_hour m))) \<and>
   ((\<exists>m'. snapshot rt parse st = Inr m') \<longleftrightarrow>
      (\<forall>e\<in>set (events st). \<exists>dt. fromtimestamp rt (timestamp e) = Inr dt))"
proof -
  let ?init = "\<lparr> total_requests = int (length (events st)), success_count = 0,
      failure_count = 0, all_total_tokens = 0, apis = [], requests_by_day = [],
      requests_by_hour = [], tokens_by_day = [], tokens_by_hour = [] \<rparr>"
  have snap: "snapshot rt parse st = snapshot_loop rt parse ?init (events st)"
    by (simp add: snapshot_def snapshot_events_def Let_def)
  have "total_requests m = int (length (events st)) \<and>
      total_requests m = success_count m + failure_count m \<and>
      sum_list (map snd (requests_by_day m)) = total_requests m \<and>
      sum_list (map snd (requests_by_hour m)) = total_requests m \<and>
      distinct (map fst (requests_by_day m)) \<and> distinct (map fst (requests_by_hour m))"
    if "snapshot rt parse st = Inr m"
    using snapshot_loop_Inr[of rt parse ?init "events st" m] that unfolding snap by simp
  moreover have "(\<exists>m'. snapshot rt parse st = Inr m') \<longleftrightarrow>
      (\<forall>e\<in>set (events st). \<exists>dt. fromtimestamp rt (timestamp e) = Inr dt)"
    unfolding snap by (rule snapshot_loop_returns)
  ultimately show ?thesis by blast
qed

theorem snapshot_totals_witness:
  "map (\<lambda>e. fromtimestamp epoch_day_rt (timestamp e)) (events store_day) =
     [Inr 3600, Inr 7200, Inr 3725] \<and>
   (\<exists>m. snapshot epoch_day_rt no_parse store_day = Inr m \<and>
        total_requests m = 3 \<and> success_count m = 2 \<and> failure_count m = 1 \<and>
        requests_by_day m = [(str ''1970-01-01'', 3)] \<and>
        requests_by_hour m = [(str ''01'', 2), (str ''02'', 1)] \<and>
        sum_list (map snd (requests_by_day m)) = total_requests m \<and>
        sum_list (map snd (requests_by_hour m)) = total_requests m)"
proof -
  have conv: "\<forall>e\<in>set (events store_day). \<exists>dt. fromtimestamp epoch_day_rt (timestamp e) = Inr dt"
    by (simp add: store_day_def epoch_day_rt_simps)
  with snapshot_totals [of epoch_day_rt no_parse store_day]
  obtain m where m: "snapshot epoch_day_rt no_parse store_day = Inr m" by blast
  from snapshot_totals [of epoch_day_rt no_parse store_day m] m
  have sums: "sum_list (map snd (requests_by_day m)) = total_requests m"
             "sum_list (map snd (requests_by_hour m)) = total_requests m"
    by simp_all
  from store_day_eval m
  have "total_requests m = 3 \<and> success_count m = 2 \<and> failure_count m = 1 \<and>
        requests_by_day m = [(str ''1970-01-01'', 3)] \<and>
        requests_by_hour m = [(str ''01'', 2), (str ''02'', 1)]"
    by simp
  moreover have "map (\<lambda>e. fromtimestamp epoch_day_rt (timestamp e)) (events store_day) =
     [Inr 3600, Inr 7200, Inr 3725]"
    by (simp add: store_day_def epoch_day_rt_simps)
  ultimately show ?thesis using m sums by blast
qed

end
